theory Spec2Isabelle
  imports Main
begin

section \<open>Go values\<close>

text \<open>
  Go's \<open>int\<close> is a 64-bit two's complement integer on the platforms the editor runs on.
  It is modelled as \<open>int\<close> with the wrap-around of every addition and subtraction
  written out: \<open>wrap64\<close> maps a mathematical result to the value Go stores.
\<close>

definition wrap64 :: "int \<Rightarrow> int" where
  "wrap64 x = (x + 2 ^ 63) mod 2 ^ 64 - 2 ^ 63"

definition is_int64 :: "int \<Rightarrow> bool" where
  "is_int64 x = (- (2 ^ 63) \<le> x \<and> x < 2 ^ 63)"

definition add64 :: "int \<Rightarrow> int \<Rightarrow> int" where
  "add64 a b = wrap64 (a + b)"

definition sub64 :: "int \<Rightarrow> int \<Rightarrow> int" where
  "sub64 a b = wrap64 (a - b)"

text \<open>\<open>len\<close> of a string or slice. A Go string is a sequence of bytes, as \<open>string\<close> is.\<close>

definition len :: "'a list \<Rightarrow> int" where
  "len xs = int (length xs)"

text \<open>
  \<open>strings.HasPrefix(s, prefix)\<close> of the standard library:
  \<^verbatim>\<open>len(s) >= len(prefix) && s[0:len(prefix)] == prefix\<close>.
\<close>

definition HasPrefix :: "string \<Rightarrow> string \<Rightarrow> bool" where
  "HasPrefix s p = (length p \<le> length s \<and> take (length p) s = p)"

text \<open>Run-time panics of the Go code, and Go's \<open>error\<close> values (by their message).\<close>

datatype panic =
  NilPointerDereference
  | IndexOutOfRange
  | SliceBoundsOutOfRange
  | NilFunctionCall
  | BadKeyBindingsTable

datatype error = Error string

fun Error_msg :: "error \<Rightarrow> string" where
  "Error_msg (Error m) = m"

text \<open>\<open>fmt.Errorf(format + "%s", err)\<close>: the message of \<open>err\<close> after a fixed text.\<close>

definition Errorf :: "string \<Rightarrow> error \<Rightarrow> error" where
  "Errorf pre e = Error (pre @ Error_msg e)"

section \<open>The editor's state\<close>

datatype bufferMode =
  modeInsert
  | modeCommand
  | modeCompletion
  | modeNavigation
  | modeHistory

text \<open>
  The completion state. Its declaration is not among the sources; the fields are the ones
  \<open>acceptCompletion\<close> reads: \<open>candidates\<close> (each with a \<open>text\<close>, here
  \<open>cand_text\<close>), \<open>current\<close>, \<open>start\<close> and \<open>end\<close> (here with the prefix \<open>c_\<close>).
\<close>

record candidate =
  cand_text :: string

record completion =
  candidates :: "candidate list"
  c_current :: int
  c_start :: int
  c_end :: int

record historyState =
  items :: "string list"
  current :: int
  saved :: string
  prefix :: string

text \<open>
  The terminal attributes \<open>tty.Termios\<close>, reduced to the four settings
  \<open>SetupTerminal\<close> changes.
\<close>

record Termios =
  icanon :: bool
  echo :: bool
  vmin :: nat
  vtime :: nat

text \<open>
  \<open>Editor\<close> with its embedded \<open>editorState\<close>. \<open>ed_file\<close> is the terminal \<open>file\<close> as the editor
  writes it: the strings written so far, oldest first. A token (\<open>parse.Item\<close>) is kept
  as its text. The reader, the writer, the evaluator and the signal channel are the
  editor's surroundings: what they answer is given by \<open>tty\<close> below. \<open>completion\<close> is a
  pointer that may be nil; \<open>history\<close> is set by \<open>New\<close> and never nil.
\<close>

record Editor =
  savedTermios :: "Termios option"
  ed_file :: "string list"
  tokens :: "string list"
  prompt :: string
  rprompt :: string
  line :: string
  dot :: int
  tips :: "string list"
  mode :: bufferMode
  completion :: "completion option"
  completionLines :: int
  history :: historyState

section \<open>Accepting a completion candidate or a history entry\<close>

text \<open>
  \<^verbatim>\<open>
  func (ed *Editor) acceptCompletion() {
      c := ed.completion
      if 0 <= c.current && c.current < len(c.candidates) {
          accepted := c.candidates[c.current].text
          ed.line = ed.line[:c.start] + accepted + ed.line[c.end:]
          ed.dot += len(accepted) - (c.end - c.start)
      }
      ed.completion = nil
      ed.mode = modeInsert
  }
  \<close>
  Reading a field of a nil \<open>c\<close> panics, and so does a slice bound outside
  \<open>0 .. len(ed.line)\<close>.
\<close>

definition acceptCompletion :: "Editor \<Rightarrow> panic + Editor" where
  "acceptCompletion ed =
     (case completion ed of
        None \<Rightarrow> Inl NilPointerDereference
      | Some c \<Rightarrow>
          if 0 \<le> c_current c \<and> c_current c < len (candidates c) then
            (let accepted = cand_text (candidates c ! nat (c_current c)) in
             if \<not> (0 \<le> c_start c \<and> c_start c \<le> len (line ed)) then Inl SliceBoundsOutOfRange
             else if \<not> (0 \<le> c_end c \<and> c_end c \<le> len (line ed)) then Inl SliceBoundsOutOfRange
             else Inr (ed\<lparr>line := take (nat (c_start c)) (line ed) @ accepted
                                    @ drop (nat (c_end c)) (line ed),
                           dot := add64 (dot ed)
                                    (sub64 (len accepted) (sub64 (c_end c) (c_start c))),
                           completion := None,
                           mode := modeInsert\<rparr>))
          else Inr (ed\<lparr>completion := None, mode := modeInsert\<rparr>))"

text \<open>
  \<^verbatim>\<open>
  func (ed *Editor) acceptHistory() {
      ed.line = ed.history.items[ed.history.current]
      ed.dot = len(ed.line)
  }
  \<close>
\<close>

definition acceptHistory :: "Editor \<Rightarrow> panic + Editor" where
  "acceptHistory ed =
     (let hs = history ed in
      if 0 \<le> current hs \<and> current hs < len (items hs) then
        (let l = items hs ! nat (current hs) in Inr (ed\<lparr>line := l, dot := len l\<rparr>))
      else Inl IndexOutOfRange)"

section \<open>Walking the history\<close>

text \<open>
  The methods \<open>append\<close>, \<open>prev\<close> and \<open>next\<close> of \<open>historyState\<close> are
  \<open>hs_append\<close>, \<open>hs_prev\<close> and \<open>hs_next\<close>. A method that changes \<open>hs\<close>
  returns the new state beside its result.
\<close>

text \<open>
  \<^verbatim>\<open>
  func (hs *historyState) append(line string) {
      hs.items = append(hs.items, line)
  }
  \<close>
\<close>

definition hs_append :: "historyState \<Rightarrow> string \<Rightarrow> historyState" where
  "hs_append hs l = hs\<lparr>items := items hs @ [l]\<rparr>"

text \<open>
  \<^verbatim>\<open>
  func (hs *historyState) prev() bool {
      for i := hs.current - 1; i >= 0; i-- {
          if strings.HasPrefix(hs.items[i], hs.prefix) {
              hs.current = i
              return true
          }
      }
      return false
  }
  \<close>
  \<open>prev_loop hs i\<close> is the loop from the test \<open>i >= 0\<close> on. \<open>hs.items[i]\<close> panics
  when \<open>i\<close> is not below \<open>len(hs.items)\<close>. Inside the loop \<open>i\<close> is an index of
  \<open>hs.items\<close>, so \<open>i--\<close> does not wrap; the first \<open>hs.current - 1\<close> may.
\<close>

function prev_loop :: "historyState \<Rightarrow> int \<Rightarrow> panic + bool \<times> historyState" where
  "prev_loop hs i =
     (if i \<ge> 0 then
        (if i < len (items hs) then
           (if HasPrefix (items hs ! nat i) (prefix hs) then Inr (True, hs\<lparr>current := i\<rparr>)
            else prev_loop hs (i - 1))
         else Inl IndexOutOfRange)
      else Inr (False, hs))"
  by pat_completeness auto
termination
  by (relation "measure (\<lambda>(hs, i). nat (i + 1))") auto

definition hs_prev :: "historyState \<Rightarrow> panic + bool \<times> historyState" where
  "hs_prev hs = prev_loop hs (sub64 (current hs) 1)"

text \<open>
  \<^verbatim>\<open>
  func (hs *historyState) next() bool {
      for i := hs.current + 1; i < len(hs.items); i++ {
          if strings.HasPrefix(hs.items[i], hs.prefix) {
              hs.current = i
              return true
          }
      }
      return false
  }
  \<close>
  Here \<open>hs.items[i]\<close> panics when \<open>i\<close> is negative. Inside the loop \<open>i\<close> is below
  \<open>len(hs.items)\<close>, which Go keeps within \<open>int\<close>, so \<open>i++\<close> does not wrap.
\<close>

function next_loop :: "historyState \<Rightarrow> int \<Rightarrow> panic + bool \<times> historyState" where
  "next_loop hs i =
     (if i < len (items hs) then
        (if 0 \<le> i then
           (if HasPrefix (items hs ! nat i) (prefix hs) then Inr (True, hs\<lparr>current := i\<rparr>)
            else next_loop hs (i + 1))
         else Inl IndexOutOfRange)
      else Inr (False, hs))"
  by pat_completeness auto
termination
  by (relation "measure (\<lambda>(hs, i). nat (len (items hs) - i))") auto

definition hs_next :: "historyState \<Rightarrow> panic + bool \<times> historyState" where
  "hs_next hs = next_loop hs (add64 (current hs) 1)"

declare prev_loop.simps [simp del] next_loop.simps [simp del]

section \<open>Keys and the key bindings\<close>

text \<open>
  Modelled from the spec: the declarations of \<open>Key\<close>, of the special keys and of the
  modifiers are not among the sources. A key is a rune with a set of modifiers drawn
  from Ctrl, Alt and Shift; the arrows, PageUp, PageDown, Enter, Tab, Backspace and
  Delete are codes apart from the runes of text; \<open>DefaultBinding\<close> is a sentinel that
  stands for every key a mode does not bind.
\<close>

datatype Mod = Ctrl | Alt | Shift

datatype rune =
  Rune char
  | Backspace | Delete | Left | Right | Up | Down | Enter | Tab | PageUp | PageDown

datatype Key = Key rune "Mod set" | DefaultBinding

text \<open>
  The table \<open>keyBindings\<close> of the source, mode by mode and in the source's order:
  \<open>map[bufferMode]map[Key]string\<close>, with \<open>Key{'i', 0}\<close> written \<open>Key (Rune CHR ''i'') {}\<close>.
\<close>

definition keyBindings_table :: "(bufferMode \<times> (Key \<times> string) list) list" where
  "keyBindings_table =
    [(modeCommand,
       [(Key (Rune CHR ''i'') {}, ''start-insert''),
        (Key (Rune CHR ''h'') {}, ''move-dot-left''),
        (Key (Rune CHR ''l'') {}, ''move-dot-right''),
        (Key (Rune CHR ''D'') {}, ''kill-line-right''),
        (DefaultBinding, ''default-command'')]),
     (modeInsert,
       [(Key (Rune CHR ''['') {Ctrl}, ''start-command''),
        (Key (Rune CHR ''U'') {Ctrl}, ''kill-line-left''),
        (Key (Rune CHR ''K'') {Ctrl}, ''kill-line-right''),
        (Key Backspace {}, ''kill-rune-left''),
        (Key Delete {}, ''kill-rune-right''),
        (Key Left {}, ''move-dot-left''),
        (Key Right {}, ''move-dot-right''),
        (Key Up {}, ''move-dot-up''),
        (Key Down {}, ''move-dot-down''),
        (Key Enter {Alt}, ''insert-key''),
        (Key Enter {}, ''return-line''),
        (Key (Rune CHR ''D'') {Ctrl}, ''return-eof''),
        (Key Tab {}, ''start-completion''),
        (Key PageUp {}, ''start-history''),
        (Key (Rune CHR ''N'') {Ctrl}, ''start-navigation''),
        (DefaultBinding, ''default-insert'')]),
     (modeCompletion,
       [(Key (Rune CHR ''['') {Ctrl}, ''cancel-completion''),
        (Key Up {}, ''select-cand-up''),
        (Key Down {}, ''select-cand-down''),
        (Key Left {}, ''select-cand-left''),
        (Key Right {}, ''select-cand-right''),
        (Key Tab {}, ''cycle-cand-right''),
        (DefaultBinding, ''default-completion'')]),
     (modeNavigation,
       [(Key Up {}, ''select-nav-up''),
        (Key Down {}, ''select-nav-down''),
        (Key Left {}, ''ascend-nav''),
        (Key Right {}, ''descend-nav''),
        (DefaultBinding, ''default-navigation'')]),
     (modeHistory,
       [(Key (Rune CHR ''['') {Ctrl}, ''cancel-history''),
        (Key PageUp {}, ''select-history-prev''),
        (Key PageDown {}, ''select-history-next''),
        (DefaultBinding, ''default-history'')])]"

definition keyBindings :: "bufferMode \<rightharpoonup> (Key \<rightharpoonup> string)" where
  "keyBindings m = map_option map_of (map_of keyBindings_table m)"

section \<open>The result of ReadLine and the editor's builtins\<close>

text \<open>
  \<^verbatim>\<open>
  // LineRead is the result of ReadLine. Exactly one member is non-zero, making
  // it effectively a tagged union.
  type LineRead struct {
      Line string
      EOF  bool
      Err  error
  }
  \<close>
  \<open>LineRead_Err err\<close> is the literal \<open>LineRead{Err: err}\<close>.
\<close>

record LineRead =
  Line :: string
  EOF :: bool
  Err :: "error option"

definition LineRead_Err :: "error \<Rightarrow> LineRead" where
  "LineRead_Err e = \<lparr>Line = [], EOF = False, Err = Some e\<rparr>"

text \<open>
  What a builtin returns, as \<open>ReadLine\<close> reads it: nil, or an action with a new mode
  and a result for \<open>ReadLine\<close>. The registry \<open>leBuiltins\<close> is not among the sources:
  it is a parameter, a map from names to functions of the editor and the key. So is
  \<open>Highlight\<close>, which gives the tokens of a line.
\<close>

datatype leAction = noAction | changeMode | changeModeAndReprocess | exitReadLine

record leReturn =
  action :: leAction
  newMode :: bufferMode
  readLineReturn :: LineRead

type_synonym leBuiltin = "Editor \<Rightarrow> Key \<Rightarrow> leReturn option \<times> Editor"

record surroundings =
  leBuiltins :: "string \<rightharpoonup> leBuiltin"
  Highlight :: "string \<Rightarrow> string list"

text \<open>
  \<^verbatim>\<open>
  func init() {
      for _, kb := range keyBindings {
          for _, name := range kb {
              if leBuiltins[name] == nil {
                  panic("bad keyBindings table: no editor builtin named " + name)
              }
          }
      }
  }
  \<close>
\<close>

definition init :: "(string \<rightharpoonup> leBuiltin) \<Rightarrow> panic + unit" where
  "init builtins =
     (if list_all (\<lambda>(m, kb). list_all (\<lambda>(k, name). builtins name \<noteq> None) kb) keyBindings_table
      then Inr () else Inl BadKeyBindingsTable)"

section \<open>The terminal session\<close>

text \<open>
  The terminal and the key reader are outside the editor. \<open>tty\<close> holds what they
  answer during one \<open>ReadLine\<close>: the results of \<open>tty.NewTermiosFromFd\<close>, of the
  \<open>ApplyToFd\<close> that sets the terminal up, of \<open>tty.FlushInput\<close> and of \<open>readCPR\<close>
  (the two numbers of the cursor position report, in the order \<open>readCPR\<close> returns them,
  or an error), the results of the successive \<open>readKey\<close> calls, those of the successive
  \<open>writer.refresh\<close> calls (when they run out, a refresh succeeds), and the result of
  the \<open>ApplyToFd\<close> that restores the terminal.
\<close>

record tty =
  termiosFromFd :: "error + Termios"
  applySetup :: "error option"
  flushInput :: "error option"
  cprReply :: "error + int \<times> int"
  keyReads :: "(error + Key) list"
  refreshResults :: "error option list"
  applyRestore :: "error option"

definition ESC :: char where
  "ESC = CHR 0x1B"

text \<open>\<^verbatim>\<open>var LackEOL = "\033[7m\u23ce\033[m\n"\<close>, with the return glyph U+23CE in UTF-8.\<close>

definition LackEOL :: string where
  "LackEOL = ESC # ''[7m'' @ [CHR 0xE2, CHR 0x8F, CHR 0x8E] @ ESC # ''[m'' @ [CHR 0x0A]"

text \<open>
  \<^verbatim>\<open>
  func SetupTerminal(file *os.File) (*tty.Termios, error) {
      fd := int(file.Fd())
      term, err := tty.NewTermiosFromFd(fd)
      if err != nil {
          return nil, fmt.Errorf("can't get terminal attribute: %s", err)
      }
      savedTermios := term.Copy()
      term.SetIcanon(false)
      term.SetEcho(false)
      term.SetMin(1)
      term.SetTime(0)
      err = term.ApplyToFd(fd)
      if err != nil {
          return nil, fmt.Errorf("can't set up terminal attribute: %s", err)
      }
      // Set autowrap off
      file.WriteString("\033[?7l")
      err = tty.FlushInput(fd)
      if err != nil {
          return nil, fmt.Errorf("can't flush input: %s", err)
      }
      return savedTermios, nil
  }
  \<close>
  The function takes the file as written so far and returns it with what it wrote. The
  changed copy of the attributes goes to the terminal and is not kept.
\<close>

definition SetupTerminal :: "tty \<Rightarrow> string list \<Rightarrow> (error + Termios) \<times> string list" where
  "SetupTerminal t f =
     (case termiosFromFd t of
        Inl err \<Rightarrow> (Inl (Errorf ''can't get terminal attribute: '' err), f)
      | Inr term \<Rightarrow>
          (let saved_termios = term in
           case applySetup t of
             Some err \<Rightarrow> (Inl (Errorf ''can't set up terminal attribute: '' err), f)
           | None \<Rightarrow>
               (let f' = f @ [ESC # ''[?7l''] in
                case flushInput t of
                  Some err \<Rightarrow> (Inl (Errorf ''can't flush input: '' err), f')
                | None \<Rightarrow> (Inr saved_termios, f'))))"

text \<open>
  \<^verbatim>\<open>
  func CleanupTerminal(file *os.File, savedTermios *tty.Termios) error {
      // Set autowrap on
      file.WriteString("\033[?7h")
      fd := int(file.Fd())
      return savedTermios.ApplyToFd(fd)
  }
  \<close>
\<close>

definition CleanupTerminal :: "tty \<Rightarrow> string list \<Rightarrow> error option \<times> string list" where
  "CleanupTerminal t f = (applyRestore t, f @ [ESC # ''[?7h''])"

text \<open>
  \<^verbatim>\<open>
  func (ed *Editor) startReadLine() error {
      savedTermios, err := SetupTerminal(ed.file)
      if err != nil {
          return err
      }
      ed.savedTermios = savedTermios

      // Query cursor location
      ed.file.WriteString("\033[6n")
      x, _, err := ed.reader.readCPR()
      if err != nil {
          return err
      }

      if x != 1 {
          ed.file.WriteString(LackEOL)
      }

      return nil
  }
  \<close>
  \<open>x\<close> is the first of the two numbers \<open>readCPR\<close> returns.
\<close>

definition startReadLine :: "tty \<Rightarrow> Editor \<Rightarrow> error option \<times> Editor" where
  "startReadLine t ed =
     (case SetupTerminal t (ed_file ed) of
        (Inl err, f) \<Rightarrow> (Some err, ed\<lparr>ed_file := f\<rparr>)
      | (Inr saved_termios, f) \<Rightarrow>
          (let ed1 = ed\<lparr>savedTermios := Some saved_termios, ed_file := f @ [ESC # ''[6n'']\<rparr> in
           case cprReply t of
             Inl err \<Rightarrow> (Some err, ed1)
           | Inr (x, _) \<Rightarrow>
               (if x \<noteq> 1 then (None, ed1\<lparr>ed_file := ed_file ed1 @ [LackEOL]\<rparr>)
                else (None, ed1))))"

text \<open>
  \<^verbatim>\<open>
  func (ed *Editor) pushTip(more string) {
      ed.tips = append(ed.tips, more)
  }

  func (ed *Editor) refresh() error {
      // Re-lex the line, unless we are in modeCompletion
      if ed.mode != modeCompletion {
          ed.tokens = nil
          hl := Highlight("<interactive code>", ed.line, ed.ev)
          for token := range hl {
              ed.tokens = append(ed.tokens, token)
          }
      }
      return ed.writer.refresh(&ed.editorState)
  }
  \<close>
\<close>

definition pushTip :: "Editor \<Rightarrow> string \<Rightarrow> Editor" where
  "pushTip ed more_tip = ed\<lparr>tips := tips ed @ [more_tip]\<rparr>"

definition refresh :: "surroundings \<Rightarrow> tty \<Rightarrow> Editor \<Rightarrow> error option \<times> tty \<times> Editor" where
  "refresh X t ed =
     (let ed' = (if mode ed \<noteq> modeCompletion then ed\<lparr>tokens := Highlight X (line ed)\<rparr> else ed) in
      case refreshResults t of
        [] \<Rightarrow> (None, t, ed')
      | r # rs \<Rightarrow> (r, t\<lparr>refreshResults := rs\<rparr>, ed'))"

text \<open>
  \<^verbatim>\<open>
  func (ed *Editor) finishReadLine(lr *LineRead) {
      if lr.EOF == false && lr.Err == nil {
          ed.history.append(lr.Line)
      }

      ed.tips = nil
      ed.mode = modeInsert
      ed.completion = nil
      ed.dot = len(ed.line)
      // TODO Perhaps make it optional to NOT clear the rprompt
      ed.rprompt = ""
      ed.refresh() // XXX(xiaq): Ignore possible error
      ed.file.WriteString("\n")

      err := CleanupTerminal(ed.file, ed.savedTermios)

      if err != nil {
          // BUG(xiaq): Error in Editor.finishReadLine may override earlier error
          *lr = LineRead{Err: fmt.Errorf("can't restore terminal attribute: %s", err)}
      }
      ed.savedTermios = nil
  }
  \<close>
  The function takes \<open>*lr\<close> and returns it as it leaves it.
\<close>

definition finishReadLine ::
  "surroundings \<Rightarrow> tty \<Rightarrow> LineRead \<Rightarrow> Editor \<Rightarrow> LineRead \<times> tty \<times> Editor" where
  "finishReadLine X t lr ed =
     (let ed1 = (if EOF lr = False \<and> Err lr = None
                 then ed\<lparr>history := hs_append (history ed) (Line lr)\<rparr> else ed);
          ed2 = ed1\<lparr>tips := [], mode := modeInsert, completion := None,
                    dot := len (line ed1), rprompt := []\<rparr>
      in case refresh X t ed2 of
        (_, t3, ed3) \<Rightarrow>
          (let ed4 = ed3\<lparr>ed_file := ed_file ed3 @ [[CHR 0x0A]]\<rparr> in
           case CleanupTerminal t3 (ed_file ed4) of
             (err, f) \<Rightarrow>
               (let lr' = (case err of
                             Some e \<Rightarrow> LineRead_Err (Errorf ''can't restore terminal attribute: '' e)
                           | None \<Rightarrow> lr)
                in (lr', t3, ed4\<lparr>ed_file := f, savedTermios := None\<rparr>))))"

section \<open>ReadLine\<close>

text \<open>
  \<^verbatim>\<open>
      for {
          ed.prompt = prompt()
          ed.rprompt = rprompt()
          err := ed.refresh()
          if err != nil {
              return LineRead{Err: err}
          }
          ed.tips = nil
          k, err := ed.reader.readKey()
          if err != nil {
              ed.pushTip(err.Error())
              continue
          }
      lookupKey:
          keyBinding, ok := keyBindings[ed.mode]
          if !ok {
              ed.pushTip("No binding for current mode")
              continue
          }
          name, bound := keyBinding[k]
          if !bound {
              name = keyBinding[DefaultBinding]
          }
          ret := leBuiltins[name](ed, k)
          if ret == nil {
              continue
          }
          switch ret.action {
          case noAction:
              continue
          case changeMode:
              ed.mode = ret.newMode
              continue
          case changeModeAndReprocess:
              ed.mode = ret.newMode
              goto lookupKey
          case exitReadLine:
              return ret.readLineReturn
          }
      }
  \<close>
  The loop may run forever, and \<open>readKey\<close> blocks when there is no input: \<open>readLoop\<close>
  takes a number of steps it may make, one for each pass through the top of the loop or
  through \<open>lookupKey\<close>, and is \<open>None\<close> when they do not suffice or when the keys have
  run out. Its fifth argument is \<open>None\<close> at the top of the loop and the key \<open>k\<close> at
  \<open>lookupKey\<close>. \<open>prompt\<close> and \<open>rprompt\<close> are given by the strings they return. Calling
  a builtin that the registry does not have is a call of a nil function. With the five
  modes as a datatype, \<open>keyBindings[ed.mode]\<close> is found for every mode a builtin can
  set; the branch for a mode without bindings is kept as the source has it.
\<close>

fun readLoop ::
  "surroundings \<Rightarrow> string \<Rightarrow> string \<Rightarrow> nat \<Rightarrow> Key option \<Rightarrow> tty \<Rightarrow> Editor
     \<Rightarrow> (panic + LineRead \<times> tty \<times> Editor) option" where
  "readLoop X p rp 0 pending t ed = None"
| "readLoop X p rp (Suc n) None t ed =
     (case refresh X t (ed\<lparr>prompt := p, rprompt := rp\<rparr>) of
        (Some err, t2, ed2) \<Rightarrow> Some (Inr (LineRead_Err err, t2, ed2))
      | (None, t2, ed2) \<Rightarrow>
          (let ed3 = ed2\<lparr>tips := []\<rparr> in
           case keyReads t2 of
             [] \<Rightarrow> None
           | Inl err # ks \<Rightarrow>
               readLoop X p rp n None (t2\<lparr>keyReads := ks\<rparr>) (pushTip ed3 (Error_msg err))
           | Inr k # ks \<Rightarrow> readLoop X p rp n (Some k) (t2\<lparr>keyReads := ks\<rparr>) ed3))"
| "readLoop X p rp (Suc n) (Some k) t ed =
     (case keyBindings (mode ed) of
        None \<Rightarrow> readLoop X p rp n None t (pushTip ed ''No binding for current mode'')
      | Some keyBinding \<Rightarrow>
          (let name = (case keyBinding k of
                         Some bound \<Rightarrow> bound
                       | None \<Rightarrow> (case keyBinding DefaultBinding of Some d \<Rightarrow> d | None \<Rightarrow> []))
           in case leBuiltins X name of
             None \<Rightarrow> Some (Inl NilFunctionCall)
           | Some builtin \<Rightarrow>
               (case builtin ed k of
                  (None, ed') \<Rightarrow> readLoop X p rp n None t ed'
                | (Some ret, ed') \<Rightarrow>
                    (case action ret of
                       noAction \<Rightarrow> readLoop X p rp n None t ed'
                     | changeMode \<Rightarrow> readLoop X p rp n None t (ed'\<lparr>mode := newMode ret\<rparr>)
                     | changeModeAndReprocess \<Rightarrow>
                         readLoop X p rp n (Some k) t (ed'\<lparr>mode := newMode ret\<rparr>)
                     | exitReadLine \<Rightarrow> Some (Inr (readLineReturn ret, t, ed'))))))"

text \<open>
  \<^verbatim>\<open>
  func (ed *Editor) ReadLine(prompt, rprompt func() string) (lr LineRead) {
      err := ed.startReadLine()
      if err != nil {
          return LineRead{Err: err}
      }
      defer ed.finishReadLine(&lr)

      ed.line = ""
      ed.mode = modeInsert
      ed.tips = nil
      ed.completion = nil
      ed.dot = 0
      ed.writer.oldBuf.cells = nil

      for { ... }
  }
  \<close>
  \<open>lr\<close> is a named result: the deferred \<open>finishReadLine\<close> runs after a \<open>return\<close> has
  set it and what it leaves in \<open>lr\<close> is what \<open>ReadLine\<close> returns. After a panic the
  deferred call runs too, and then the panic goes on: \<open>ReadLine\<close> returns nothing.
  The writer's old buffer, which \<open>ReadLine\<close> clears, belongs to the writer and is not
  part of the state here.
\<close>

definition ReadLine ::
  "surroundings \<Rightarrow> string \<Rightarrow> string \<Rightarrow> nat \<Rightarrow> tty \<Rightarrow> Editor
     \<Rightarrow> (panic + LineRead \<times> tty \<times> Editor) option" where
  "ReadLine X p rp n t ed =
     (case startReadLine t ed of
        (Some err, ed1) \<Rightarrow> Some (Inr (LineRead_Err err, t, ed1))
      | (None, ed1) \<Rightarrow>
          (case readLoop X p rp n None t
                  (ed1\<lparr>line := [], mode := modeInsert, tips := [], completion := None, dot := 0\<rparr>) of
             None \<Rightarrow> None
           | Some (Inl pn) \<Rightarrow> Some (Inl pn)
           | Some (Inr (lr, t3, ed3)) \<Rightarrow> Some (Inr (finishReadLine X t3 lr ed3))))"

section \<open>The screen buffer and the mode line\<close>

text \<open>
  Modelled from the spec: the buffer, its cells and its writers are not among the
  sources. A cell is a displayed unit with a width and a style; a buffer is a grid of
  rows of cells bounded by \<open>width\<close>, with the column \<open>col\<close> of its cursor, an
  \<open>indent\<close>, the dot and the flag \<open>newlineWhenFull\<close>. The fields are the ones the
  renderers of the source use. A new buffer has one empty row. A string is written rune
  by rune, a rune being a \<open>char\<close> here.
\<close>

record cell =
  cell_rune :: char
  cell_width :: int
  cell_style :: string

record pos =
  pos_line :: int
  pos_col :: int

record buffer =
  width :: int
  col :: int
  indent :: int
  newlineWhenFull :: bool
  cells :: "cell list list"
  buf_dot :: pos

text \<open>
  What the renderers take from outside the sources: the width of a rune (\<open>wcwidth\<close>),
  the styles of the mode line and the function that paints the horizontal scrollbar
  for \<open>n\<close>, \<open>low\<close>, \<open>high\<close> and a width.
\<close>

record screen =
  wcwidth :: "char \<Rightarrow> int"
  styleForMode :: string
  styleForFilter :: string
  writeHorizontalScrollbar :: "buffer \<Rightarrow> int \<Rightarrow> int \<Rightarrow> int \<Rightarrow> int \<Rightarrow> buffer"

definition newBuffer :: "int \<Rightarrow> buffer" where
  "newBuffer w = \<lparr>width = w, col = 0, indent = 0, newlineWhenFull = False, cells = [[]],
                   buf_dot = \<lparr>pos_line = 0, pos_col = 0\<rparr>\<rparr>"

text \<open>
  Modelled from the spec: the displayed width of a row is the sum of the widths of its
  cells.
\<close>

definition lineWidth :: "cell list \<Rightarrow> int" where
  "lineWidth cs = sum_list (map cell_width cs)"

text \<open>
  Modelled from the spec: \<open>write(rune, style)\<close> appends one character and advances
  \<open>col\<close> by its width; if \<open>col + w > width\<close> and \<open>newlineWhenFull\<close>, it starts a new
  row indented by \<open>indent\<close> before writing; if not wrapping, it clips. \<open>writes\<close> is
  repeated \<open>write\<close> (\<open>write_rune\<close> here). \<open>cursor()\<close> is the current line and column.
\<close>

definition appendCell :: "buffer \<Rightarrow> cell \<Rightarrow> buffer" where
  "appendCell b c =
     (case cells b of
        [] \<Rightarrow> b\<lparr>cells := [[c]], col := col b + cell_width c\<rparr>
      | _ \<Rightarrow> b\<lparr>cells := butlast (cells b) @ [last (cells b) @ [c]],
               col := col b + cell_width c\<rparr>)"

definition indentedNewline :: "buffer \<Rightarrow> buffer" where
  "indentedNewline b =
     b\<lparr>cells := cells b @ [replicate (nat (indent b))
                               \<lparr>cell_rune = CHR '' '', cell_width = 1, cell_style = []\<rparr>],
       col := indent b\<rparr>"

definition write_rune :: "screen \<Rightarrow> buffer \<Rightarrow> char \<Rightarrow> string \<Rightarrow> buffer" where
  "write_rune S b r style =
     (let w = wcwidth S r; c = \<lparr>cell_rune = r, cell_width = w, cell_style = style\<rparr> in
      if col b + w > width b then
        (if newlineWhenFull b then appendCell (indentedNewline b) c else b)
      else appendCell b c)"

definition writes :: "screen \<Rightarrow> buffer \<Rightarrow> string \<Rightarrow> string \<Rightarrow> buffer" where
  "writes S b s style = foldl (\<lambda>b' r. write_rune S b' r style) b s"

definition cursor :: "buffer \<Rightarrow> pos" where
  "cursor b = \<lparr>pos_line = len (cells b) - 1, pos_col = col b\<rparr>"

text \<open>
  \<^verbatim>\<open>
  type modeLineRenderer struct {
      title  string
      filter string
  }

  func (ml modeLineRenderer) render(b *buffer) {
      b.writes(ml.title, styleForMode.String())
      b.writes(" ", "")
      b.writes(ml.filter, styleForFilter.String())
      b.dot = b.cursor()
  }
  \<close>
\<close>

record modeLineRenderer =
  title :: string
  filter_text :: string

definition modeLineRenderer_render :: "screen \<Rightarrow> 'a modeLineRenderer_scheme \<Rightarrow> buffer \<Rightarrow> buffer" where
  "modeLineRenderer_render S ml b =
     (let b1 = writes S b (title ml) (styleForMode S);
          b2 = writes S b1 '' '' [];
          b3 = writes S b2 (filter_text ml) (styleForFilter S)
      in b3\<lparr>buf_dot := cursor b3\<rparr>)"

text \<open>
  \<^verbatim>\<open>
  type modeLineWithScrollBarRenderer struct {
      modeLineRenderer
      n, low, high int
  }

  func (ml modeLineWithScrollBarRenderer) render(b *buffer) {
      ml.modeLineRenderer.render(b)

      scrollbarWidth := b.width - lineWidth(b.cells[len(b.cells)-1]) - 2
      if scrollbarWidth >= 3 {
          b.writes(" ", "")
          writeHorizontalScrollbar(b, ml.n, ml.low, ml.high, scrollbarWidth)
      }
  }
  \<close>
  \<open>b.cells[len(b.cells)-1]\<close> panics when the buffer has no row.
\<close>

record modeLineWithScrollBarRenderer = modeLineRenderer +
  sb_n :: int
  sb_low :: int
  sb_high :: int

definition modeLineWithScrollBarRenderer_render ::
  "screen \<Rightarrow> modeLineWithScrollBarRenderer \<Rightarrow> buffer \<Rightarrow> panic + buffer" where
  "modeLineWithScrollBarRenderer_render S ml b =
     (let b1 = modeLineRenderer_render S ml b in
      if cells b1 = [] then Inl IndexOutOfRange
      else
        (let scrollbarWidth = sub64 (sub64 (width b1) (lineWidth (last (cells b1)))) 2 in
         if scrollbarWidth \<ge> 3
         then Inr (writeHorizontalScrollbar S (writes S b1 '' '' [])
                     (sb_n ml) (sb_low ml) (sb_high ml) scrollbarWidth)
         else Inr b1))"

text \<open>
  \<^verbatim>\<open>
  func render(r renderer, width int) *buffer {
      if r == nil {
          return nil
      }
      b := newBuffer(width)
      r.render(b)
      return b
  }
  \<close>
  for a mode line with scrollbar.
\<close>

definition render :: "screen \<Rightarrow> modeLineWithScrollBarRenderer \<Rightarrow> int \<Rightarrow> panic + buffer" where
  "render S r w = modeLineWithScrollBarRenderer_render S r (newBuffer w)"

text \<open>
  A buffer that clips, as \<open>newBuffer\<close> makes it: it has a row, it does not wrap, and
  its cursor column is the displayed width of its last row, within the width.
\<close>

definition clipping :: "buffer \<Rightarrow> bool" where
  "clipping b =
     (cells b \<noteq> [] \<and> \<not> newlineWhenFull b \<and> lineWidth (last (cells b)) = col b
      \<and> 0 \<le> col b \<and> col b \<le> width b)"

section \<open>Example states\<close>

text \<open>
  The history of the spec's scenario S5, and the editor of scenario S6: the line
  \<open>echo h\<close> with the dot at its end and the candidates \<open>hello\<close> and \<open>help\<close> for the
  last byte.
\<close>

definition h5 :: historyState where
  "h5 = \<lparr>items = [''git status'', ''gcc main.c'', ''grep foo''], current = 3,
          saved = ''g'', prefix = ''g''\<rparr>"

definition c6 :: completion where
  "c6 = \<lparr>candidates = [\<lparr>cand_text = ''hello''\<rparr>, \<lparr>cand_text = ''help''\<rparr>],
          c_current = 0, c_start = 5, c_end = 6\<rparr>"

definition ed6 :: Editor where
  "ed6 = \<lparr>savedTermios = None, ed_file = [], tokens = [], prompt = ''> '', rprompt = [],
           line = ''echo h'', dot = 6, tips = [], mode = modeCompletion,
           completion = Some c6, completionLines = 1, history = h5\<rparr>"

text \<open>
  Modelled from the spec: the builtins are not among the sources. These are three of
  them as the spec describes them. \<open>return-line\<close> submits: it leaves \<open>ReadLine\<close> with
  the line (scenario S1). \<open>return-eof\<close> leaves with EOF when the line is empty and is
  ignored otherwise (scenarios S2 and S3). \<open>default-insert\<close>, the fallback of insert
  mode, inserts the rune of an unmodified key at the dot.
\<close>

definition returnLine :: leBuiltin where
  "returnLine ed k =
     (Some \<lparr>action = exitReadLine, newMode = modeInsert,
            readLineReturn = \<lparr>Line = line ed, EOF = False, Err = None\<rparr>\<rparr>, ed)"

definition returnEOF :: leBuiltin where
  "returnEOF ed k =
     (if len (line ed) = 0
      then (Some \<lparr>action = exitReadLine, newMode = modeInsert,
                  readLineReturn = \<lparr>Line = [], EOF = True, Err = None\<rparr>\<rparr>, ed)
      else (None, ed))"

fun defaultInsert :: leBuiltin where
  "defaultInsert ed (Key (Rune c) ms) =
     (if ms = {} \<and> 0 \<le> dot ed \<and> dot ed \<le> len (line ed)
      then (None, ed\<lparr>line := take (nat (dot ed)) (line ed) @ [c] @ drop (nat (dot ed)) (line ed),
                      dot := add64 (dot ed) 1\<rparr>)
      else (None, ed))"
| "defaultInsert ed k = (None, ed)"

definition spec_builtins :: "string \<rightharpoonup> leBuiltin" where
  "spec_builtins =
     map_of [(''return-line'', returnLine), (''return-eof'', returnEOF),
             (''default-insert'', defaultInsert)]"

definition spec_surroundings :: surroundings where
  "spec_surroundings = \<lparr>leBuiltins = spec_builtins, Highlight = (\<lambda>l. [])\<rparr>"

text \<open>
  The editor \<open>New\<close> makes, and a terminal that answers every call without an error,
  reports the cursor at row 1, column 1 and delivers the given keys.
\<close>

definition new_editor :: Editor where
  "new_editor = \<lparr>savedTermios = None, ed_file = [], tokens = [], prompt = [], rprompt = [],
                  line = [], dot = 0, tips = [], mode = modeInsert, completion = None,
                  completionLines = 0,
                  history = \<lparr>items = [], current = 0, saved = [], prefix = []\<rparr>\<rparr>"

definition cooked :: Termios where
  "cooked = \<lparr>icanon = True, echo = True, vmin = 1, vtime = 0\<rparr>"

definition good_tty :: "Key list \<Rightarrow> tty" where
  "good_tty ks = \<lparr>termiosFromFd = Inr cooked, applySetup = None, flushInput = None,
                   cprReply = Inr (1, 1), keyReads = map Inr ks, refreshResults = [],
                   applyRestore = None\<rparr>"

text \<open>
  What a call of \<open>ReadLine\<close> that has returned gives back, with the items of the
  history it leaves.
\<close>

definition returned ::
  "(panic + LineRead \<times> tty \<times> Editor) option \<Rightarrow> (LineRead \<times> string list) option" where
  "returned r =
     (case r of
        Some (Inr (lr, t, ed)) \<Rightarrow> Some (lr, items (history ed))
      | _ \<Rightarrow> None)"

text \<open>The same terminal, except that restoring its attributes fails.\<close>

definition failing_restore :: "Key list \<Rightarrow> tty" where
  "failing_restore ks = (good_tty ks)\<lparr>applyRestore := Some (Error ''EIO'')\<rparr>"

text \<open>
  A screen on which every rune is one column wide, with a stand-in for the scrollbar
  painter that fills the width it is given; and the mode line \<open>COMP ab\<close>, seven
  columns wide.
\<close>

definition plain_screen :: screen where
  "plain_screen =
     \<lparr>wcwidth = (\<lambda>r. 1), styleForMode = ''1'', styleForFilter = ''4'',
      writeHorizontalScrollbar =
        (\<lambda>b n low high w.
           foldl (\<lambda>b' r. appendCell b' \<lparr>cell_rune = r, cell_width = 1, cell_style = ''7''\<rparr>)
             b (replicate (nat w) CHR ''-''))\<rparr>"

definition comp_line :: modeLineWithScrollBarRenderer where
  "comp_line = \<lparr>title = ''COMP'', filter_text = ''ab'', sb_n = 10, sb_low = 0, sb_high = 3\<rparr>"

section \<open>Facts about 64-bit arithmetic\<close>

lemma wrap64_id: "is_int64 x \<Longrightarrow> wrap64 x = x"
  by (simp add: wrap64_def is_int64_def)

lemma wrap64_add_right: "wrap64 (a + wrap64 b) = wrap64 (a + b)"
proof -
  have "(a + ((b + 2 ^ 63) mod 2 ^ 64 - 2 ^ 63) + 2 ^ 63) mod 2 ^ 64
        = (a + ((b + 2 ^ 63) mod 2 ^ 64)) mod (2 ^ 64 :: int)"
    by (simp add: algebra_simps)
  also have "\<dots> = (a + (b + 2 ^ 63)) mod 2 ^ 64"
    by (rule mod_add_right_eq)
  finally show ?thesis
    by (simp add: wrap64_def algebra_simps)
qed

lemma wrap64_sub_right: "wrap64 (a - wrap64 b) = wrap64 (a - b)"
proof -
  have "(a - ((b + 2 ^ 63) mod 2 ^ 64 - 2 ^ 63) + 2 ^ 63) mod 2 ^ 64
        = (a + 2 ^ 64 - ((b + 2 ^ 63) mod 2 ^ 64)) mod (2 ^ 64 :: int)"
    by (simp add: algebra_simps)
  also have "\<dots> = (a + 2 ^ 64 - (b + 2 ^ 63)) mod 2 ^ 64"
    by (rule mod_diff_right_eq)
  also have "\<dots> = (a - b + 2 ^ 63) mod 2 ^ 64"
    by (simp add: algebra_simps)
  finally show ?thesis
    by (simp add: wrap64_def)
qed

lemma dot_update_wrap:
  "add64 d (sub64 n (sub64 e b)) = wrap64 (d + n - (e - b))"
proof -
  have "add64 d (sub64 n (sub64 e b)) = wrap64 (d + wrap64 (n - wrap64 (e - b)))"
    by (simp add: add64_def sub64_def)
  also have "\<dots> = wrap64 (d + (n - wrap64 (e - b)))"
    by (rule wrap64_add_right)
  also have "\<dots> = wrap64 ((d + n) - wrap64 (e - b))"
    by (simp add: algebra_simps)
  also have "\<dots> = wrap64 ((d + n) - (e - b))"
    by (rule wrap64_sub_right)
  finally show ?thesis by simp
qed

section \<open>Accepting\<close>

text \<open>
  Claim C1. For a line, a completion range \<open>[b, e)\<close> with \<open>0 \<le> b \<le> e \<le> len(line)\<close>
  and a selected candidate with text \<open>t\<close>, accepting the completion yields
  \<open>line[:b] + t + line[e:]\<close> and the dot \<open>dot + len(t) - (e - b)\<close>: as Go computes it
  on 64 bits, and so the exact number whenever that fits Go's \<open>int\<close>. The equation
  does not need the dot to be at or after \<open>e\<close>.
\<close>

theorem acceptCompletion_replaces_range:
  assumes "completion ed = Some c"
    and "0 \<le> c_current c" "c_current c < len (candidates c)"
    and "0 \<le> c_start c" "c_start c \<le> c_end c" "c_end c \<le> len (line ed)"
    and "t = cand_text (candidates c ! nat (c_current c))"
  shows "\<exists>ed'. acceptCompletion ed = Inr ed'
           \<and> line ed' = take (nat (c_start c)) (line ed) @ t @ drop (nat (c_end c)) (line ed)
           \<and> dot ed' = wrap64 (dot ed + len t - (c_end c - c_start c))
           \<and> (is_int64 (dot ed + len t - (c_end c - c_start c))
                \<longrightarrow> dot ed' = dot ed + len t - (c_end c - c_start c))"
  using assms by (simp add: acceptCompletion_def Let_def dot_update_wrap wrap64_id)

text \<open>Scenario S6: \<open>echo h\<close> with \<open>hello\<close> accepted over \<open>[5, 6)\<close> and the dot at 6.\<close>

theorem acceptCompletion_replaces_range_witness:
  "\<exists>ed'. acceptCompletion ed6 = Inr ed' \<and> line ed' = ''echo hello'' \<and> dot ed' = 10"
proof -
  have h: "completion ed6 = Some c6" "0 \<le> c_current c6" "c_current c6 < len (candidates c6)"
    "0 \<le> c_start c6" "c_start c6 \<le> c_end c6" "c_end c6 \<le> len (line ed6)"
    "''hello'' = cand_text (candidates c6 ! nat (c_current c6))"
    by (simp_all add: ed6_def c6_def len_def)
  from acceptCompletion_replaces_range [OF h] obtain ed' where r:
    "acceptCompletion ed6 = Inr ed'"
    "line ed' = take (nat (c_start c6)) (line ed6) @ ''hello'' @ drop (nat (c_end c6)) (line ed6)"
    "is_int64 (dot ed6 + len ''hello'' - (c_end c6 - c_start c6))
       \<longrightarrow> dot ed' = dot ed6 + len ''hello'' - (c_end c6 - c_start c6)"
    by blast
  have "line ed' = ''echo hello''"
    using r(2) by (simp add: ed6_def c6_def)
  moreover have "is_int64 (dot ed6 + len ''hello'' - (c_end c6 - c_start c6))"
    by (simp add: ed6_def c6_def len_def is_int64_def)
  with r(3) have "dot ed' = 10"
    by (simp add: ed6_def c6_def len_def)
  ultimately show ?thesis
    using r(1) by blast
qed

text \<open>
  Claim C9. With a completion state whose selected index is out of range
  (\<open>current < 0\<close> or \<open>current \<ge> len(candidates)\<close>), \<open>acceptCompletion\<close> changes nothing
  but the completion state, which it clears, and the mode, which it sets to insert: the
  line and the dot stay. Whatever the index, whenever the range lies within the line
  (outside it Go's slice expression panics) it returns, and every state it returns has
  the completion state cleared and the mode set to insert.
\<close>

theorem acceptCompletion_clears:
  assumes "completion ed = Some c"
  shows "(c_current c < 0 \<or> len (candidates c) \<le> c_current c
            \<longrightarrow> acceptCompletion ed = Inr (ed\<lparr>completion := None, mode := modeInsert\<rparr>))
       \<and> (0 \<le> c_start c \<and> c_start c \<le> len (line ed) \<and> 0 \<le> c_end c \<and> c_end c \<le> len (line ed)
            \<longrightarrow> (\<exists>ed'. acceptCompletion ed = Inr ed'))
       \<and> (\<forall>ed'. acceptCompletion ed = Inr ed'
            \<longrightarrow> completion ed' = None \<and> mode ed' = modeInsert)"
  using assms by (auto simp add: acceptCompletion_def Let_def split: if_splits)

text \<open>
  The editor of scenario S6 with no candidate selected (\<open>current = -1\<close>), and with the
  first one selected.
\<close>

theorem acceptCompletion_clears_witness:
  "acceptCompletion (ed6\<lparr>completion := Some (c6\<lparr>c_current := - 1\<rparr>)\<rparr>)
     = Inr (ed6\<lparr>completion := None, mode := modeInsert\<rparr>)
   \<and> line ed6 = ''echo h'' \<and> dot ed6 = 6
   \<and> (\<exists>ed'. acceptCompletion ed6 = Inr ed' \<and> completion ed' = None \<and> mode ed' = modeInsert)"
proof -
  have a: "completion (ed6\<lparr>completion := Some (c6\<lparr>c_current := - 1\<rparr>)\<rparr>)
           = Some (c6\<lparr>c_current := - 1\<rparr>)"
    by simp
  have b: "completion ed6 = Some c6"
    by (simp add: ed6_def)
  have "acceptCompletion (ed6\<lparr>completion := Some (c6\<lparr>c_current := - 1\<rparr>)\<rparr>)
          = Inr (ed6\<lparr>completion := None, mode := modeInsert\<rparr>)"
    using acceptCompletion_clears [OF a] by simp
  moreover have "\<exists>ed'. acceptCompletion ed6 = Inr ed' \<and> completion ed' = None \<and> mode ed' = modeInsert"
  proof -
    have "0 \<le> c_start c6 \<and> c_start c6 \<le> len (line ed6) \<and> 0 \<le> c_end c6 \<and> c_end c6 \<le> len (line ed6)"
      by (simp add: ed6_def c6_def len_def)
    with acceptCompletion_clears [OF b] show ?thesis by blast
  qed
  moreover have "line ed6 = ''echo h'' \<and> dot ed6 = 6"
    by (simp add: ed6_def)
  ultimately show ?thesis by blast
qed

text \<open>
  Claim C10. When \<open>current\<close> is an index of the history's items, \<open>acceptHistory\<close> sets
  the line to \<open>items[current]\<close> and the dot to the length of that line in bytes.
\<close>

theorem acceptHistory_sets_line_and_dot:
  assumes "0 \<le> current (history ed)" "current (history ed) < len (items (history ed))"
  shows "acceptHistory ed
         = Inr (ed\<lparr>line := items (history ed) ! nat (current (history ed)),
                   dot := len (items (history ed) ! nat (current (history ed)))\<rparr>)"
  using assms by (simp add: acceptHistory_def Let_def)

theorem acceptHistory_sets_line_and_dot_witness:
  "acceptHistory (ed6\<lparr>history := h5\<lparr>current := 1\<rparr>\<rparr>)
     = Inr (ed6\<lparr>history := h5\<lparr>current := 1\<rparr>, line := ''gcc main.c'', dot := 10\<rparr>)"
proof -
  have "0 \<le> current (history (ed6\<lparr>history := h5\<lparr>current := 1\<rparr>\<rparr>))"
    "current (history (ed6\<lparr>history := h5\<lparr>current := 1\<rparr>\<rparr>))
       < len (items (history (ed6\<lparr>history := h5\<lparr>current := 1\<rparr>\<rparr>)))"
    by (simp_all add: h5_def len_def)
  from acceptHistory_sets_line_and_dot [OF this] show ?thesis
    by (simp add: h5_def len_def)
qed


section \<open>The history walk\<close>

text \<open>
  What the two loops return when started inside the slice: the nearest index whose
  item starts with the prefix, or \<open>false\<close> and the state as it was.
\<close>

lemma prev_loop_result:
  "i < len (items hs) \<Longrightarrow>
   (\<exists>k. 0 \<le> k \<and> k \<le> i \<and> HasPrefix (items hs ! nat k) (prefix hs)
        \<and> (\<forall>j. k < j \<and> j \<le> i \<longrightarrow> \<not> HasPrefix (items hs ! nat j) (prefix hs))
        \<and> prev_loop hs i = Inr (True, hs\<lparr>current := k\<rparr>))
   \<or> ((\<forall>j. 0 \<le> j \<and> j \<le> i \<longrightarrow> \<not> HasPrefix (items hs ! nat j) (prefix hs))
        \<and> prev_loop hs i = Inr (False, hs))"
proof (induction hs i rule: prev_loop.induct)
  case (1 hs i)
  show ?case
  proof (cases "0 \<le> i")
    case False
    then show ?thesis by (subst prev_loop.simps) auto
  next
    case nonneg: True
    show ?thesis
    proof (cases "HasPrefix (items hs ! nat i) (prefix hs)")
      case True
      with nonneg "1.prems" have "prev_loop hs i = Inr (True, hs\<lparr>current := i\<rparr>)"
        by (simp add: prev_loop.simps)
      with True nonneg show ?thesis by auto
    next
      case False
      with nonneg "1.prems" have step: "prev_loop hs i = prev_loop hs (i - 1)"
        by (subst prev_loop.simps) simp
      from "1.prems" have "i - 1 < len (items hs)" by simp
      from "1.IH" [OF nonneg "1.prems" False this]
      show ?thesis
      proof
        assume "\<exists>k. 0 \<le> k \<and> k \<le> i - 1 \<and> HasPrefix (items hs ! nat k) (prefix hs)
          \<and> (\<forall>j. k < j \<and> j \<le> i - 1 \<longrightarrow> \<not> HasPrefix (items hs ! nat j) (prefix hs))
          \<and> prev_loop hs (i - 1) = Inr (True, hs\<lparr>current := k\<rparr>)"
        then obtain k where k: "0 \<le> k" "k \<le> i - 1" "HasPrefix (items hs ! nat k) (prefix hs)"
          "\<forall>j. k < j \<and> j \<le> i - 1 \<longrightarrow> \<not> HasPrefix (items hs ! nat j) (prefix hs)"
          "prev_loop hs (i - 1) = Inr (True, hs\<lparr>current := k\<rparr>)" by blast
        have "\<forall>j. k < j \<and> j \<le> i \<longrightarrow> \<not> HasPrefix (items hs ! nat j) (prefix hs)"
        proof (intro allI impI)
          fix j assume "k < j \<and> j \<le> i"
          then have "j \<le> i - 1 \<or> j = i" by auto
          with k(4) False \<open>k < j \<and> j \<le> i\<close> show "\<not> HasPrefix (items hs ! nat j) (prefix hs)" by auto
        qed
        with k step show ?thesis by force
      next
        assume a: "(\<forall>j. 0 \<le> j \<and> j \<le> i - 1 \<longrightarrow> \<not> HasPrefix (items hs ! nat j) (prefix hs))
          \<and> prev_loop hs (i - 1) = Inr (False, hs)"
        have "\<forall>j. 0 \<le> j \<and> j \<le> i \<longrightarrow> \<not> HasPrefix (items hs ! nat j) (prefix hs)"
        proof (intro allI impI)
          fix j assume "0 \<le> j \<and> j \<le> i"
          then have "j \<le> i - 1 \<or> j = i" by auto
          with a False \<open>0 \<le> j \<and> j \<le> i\<close> show "\<not> HasPrefix (items hs ! nat j) (prefix hs)" by auto
        qed
        with a step show ?thesis by simp
      qed
    qed
  qed
qed


lemma next_loop_result:
  "0 \<le> i \<Longrightarrow>
   (\<exists>k. i \<le> k \<and> k < len (items hs) \<and> HasPrefix (items hs ! nat k) (prefix hs)
        \<and> (\<forall>j. i \<le> j \<and> j < k \<longrightarrow> \<not> HasPrefix (items hs ! nat j) (prefix hs))
        \<and> next_loop hs i = Inr (True, hs\<lparr>current := k\<rparr>))
   \<or> ((\<forall>j. i \<le> j \<and> j < len (items hs) \<longrightarrow> \<not> HasPrefix (items hs ! nat j) (prefix hs))
        \<and> next_loop hs i = Inr (False, hs))"
proof (induction hs i rule: next_loop.induct)
  case (1 hs i)
  show ?case
  proof (cases "i < len (items hs)")
    case False
    then show ?thesis by (subst next_loop.simps) auto
  next
    case inside: True
    show ?thesis
    proof (cases "HasPrefix (items hs ! nat i) (prefix hs)")
      case True
      with inside "1.prems" have "next_loop hs i = Inr (True, hs\<lparr>current := i\<rparr>)"
        by (simp add: next_loop.simps)
      with True inside show ?thesis by auto
    next
      case False
      with inside "1.prems" have step: "next_loop hs i = next_loop hs (i + 1)"
        by (subst next_loop.simps) simp
      from "1.prems" have "0 \<le> i + 1" by simp
      from "1.IH" [OF inside "1.prems" False this]
      show ?thesis
      proof
        assume "\<exists>k. i + 1 \<le> k \<and> k < len (items hs) \<and> HasPrefix (items hs ! nat k) (prefix hs)
          \<and> (\<forall>j. i + 1 \<le> j \<and> j < k \<longrightarrow> \<not> HasPrefix (items hs ! nat j) (prefix hs))
          \<and> next_loop hs (i + 1) = Inr (True, hs\<lparr>current := k\<rparr>)"
        then obtain k where k: "i + 1 \<le> k" "k < len (items hs)"
          "HasPrefix (items hs ! nat k) (prefix hs)"
          "\<forall>j. i + 1 \<le> j \<and> j < k \<longrightarrow> \<not> HasPrefix (items hs ! nat j) (prefix hs)"
          "next_loop hs (i + 1) = Inr (True, hs\<lparr>current := k\<rparr>)" by blast
        have "\<forall>j. i \<le> j \<and> j < k \<longrightarrow> \<not> HasPrefix (items hs ! nat j) (prefix hs)"
        proof (intro allI impI)
          fix j assume "i \<le> j \<and> j < k"
          then have "i + 1 \<le> j \<or> j = i" by auto
          with k(4) False \<open>i \<le> j \<and> j < k\<close> show "\<not> HasPrefix (items hs ! nat j) (prefix hs)" by auto
        qed
        moreover from k(1) have "i \<le> k" by simp
        ultimately have "i \<le> k \<and> k < len (items hs) \<and> HasPrefix (items hs ! nat k) (prefix hs)
            \<and> (\<forall>j. i \<le> j \<and> j < k \<longrightarrow> \<not> HasPrefix (items hs ! nat j) (prefix hs))
            \<and> next_loop hs i = Inr (True, hs\<lparr>current := k\<rparr>)"
          using k step by simp
        then show ?thesis by blast
      next
        assume a: "(\<forall>j. i + 1 \<le> j \<and> j < len (items hs) \<longrightarrow> \<not> HasPrefix (items hs ! nat j) (prefix hs))
          \<and> next_loop hs (i + 1) = Inr (False, hs)"
        have "\<forall>j. i \<le> j \<and> j < len (items hs) \<longrightarrow> \<not> HasPrefix (items hs ! nat j) (prefix hs)"
        proof (intro allI impI)
          fix j assume "i \<le> j \<and> j < len (items hs)"
          then have "i + 1 \<le> j \<or> j = i" by auto
          with a False \<open>i \<le> j \<and> j < len (items hs)\<close> show "\<not> HasPrefix (items hs ! nat j) (prefix hs)" by auto
        qed
        with a step show ?thesis by simp
      qed
    qed
  qed
qed

lemma len_nonneg: "0 \<le> len xs"
  by (simp add: len_def)

lemma hs_prev_result:
  assumes "- 1 \<le> current hs" "current hs \<le> len (items hs)" "len (items hs) < 2 ^ 63 - 1"
  shows "(\<exists>k. 0 \<le> k \<and> k < current hs \<and> HasPrefix (items hs ! nat k) (prefix hs)
            \<and> (\<forall>j. k < j \<and> j < current hs \<longrightarrow> \<not> HasPrefix (items hs ! nat j) (prefix hs))
            \<and> hs_prev hs = Inr (True, hs\<lparr>current := k\<rparr>))
       \<or> ((\<forall>j. 0 \<le> j \<and> j < current hs \<longrightarrow> \<not> HasPrefix (items hs ! nat j) (prefix hs))
            \<and> hs_prev hs = Inr (False, hs))"
proof -
  from assms have "is_int64 (current hs - 1)" by (simp add: is_int64_def)
  then have start: "hs_prev hs = prev_loop hs (current hs - 1)"
    by (simp add: hs_prev_def sub64_def wrap64_id)
  from assms have "current hs - 1 < len (items hs)" by simp
  from prev_loop_result [OF this] show ?thesis
    unfolding start by (auto simp: zle_diff1_eq)
qed

lemma hs_next_result:
  assumes "- 1 \<le> current hs" "current hs \<le> len (items hs)" "len (items hs) < 2 ^ 63 - 1"
  shows "(\<exists>k. current hs < k \<and> k < len (items hs) \<and> HasPrefix (items hs ! nat k) (prefix hs)
            \<and> (\<forall>j. current hs < j \<and> j < k \<longrightarrow> \<not> HasPrefix (items hs ! nat j) (prefix hs))
            \<and> hs_next hs = Inr (True, hs\<lparr>current := k\<rparr>))
       \<or> ((\<forall>j. current hs < j \<and> j < len (items hs) \<longrightarrow> \<not> HasPrefix (items hs ! nat j) (prefix hs))
            \<and> hs_next hs = Inr (False, hs))"
proof -
  from assms have "is_int64 (current hs + 1)" by (simp add: is_int64_def)
  then have start: "hs_next hs = next_loop hs (current hs + 1)"
    by (simp add: hs_next_def add64_def wrap64_id)
  from assms have "0 \<le> current hs + 1" by simp
  from next_loop_result [OF this, of hs] show ?thesis
    unfolding start by (auto simp: add1_zle_eq)
qed

lemma hs_prev_next_origin:
  assumes dom: "- 1 \<le> current hs" "current hs \<le> len (items hs)" "len (items hs) < 2 ^ 63 - 1"
    and pr: "hs_prev hs = Inr (True, hs')"
    and o: "current hs < len (items hs)" "HasPrefix (items hs ! nat (current hs)) (prefix hs)"
  shows "hs_next hs' = Inr (True, hs)"
proof -
  from hs_prev_result [OF dom] pr obtain k where k: "0 \<le> k" "k < current hs"
    "\<forall>j. k < j \<and> j < current hs \<longrightarrow> \<not> HasPrefix (items hs ! nat j) (prefix hs)"
    "hs' = hs\<lparr>current := k\<rparr>" by auto
  have dom': "- 1 \<le> current hs'" "current hs' \<le> len (items hs')" "len (items hs') < 2 ^ 63 - 1"
    using k dom by simp_all
  from hs_next_result [OF dom'] show ?thesis
  proof
    assume "\<exists>m. current hs' < m \<and> m < len (items hs') \<and> HasPrefix (items hs' ! nat m) (prefix hs')
            \<and> (\<forall>j. current hs' < j \<and> j < m \<longrightarrow> \<not> HasPrefix (items hs' ! nat j) (prefix hs'))
            \<and> hs_next hs' = Inr (True, hs'\<lparr>current := m\<rparr>)"
    then obtain m where m: "k < m" "m < len (items hs)" "HasPrefix (items hs ! nat m) (prefix hs)"
      "\<forall>j. k < j \<and> j < m \<longrightarrow> \<not> HasPrefix (items hs ! nat j) (prefix hs)"
      "hs_next hs' = Inr (True, hs'\<lparr>current := m\<rparr>)" using k(4) by auto
    have "\<not> m < current hs" using k(3) m(1) m(3) by blast
    moreover have "\<not> current hs < m" using m(4) k(2) o(2) by blast
    ultimately have "m = current hs" by simp
    with m(5) k(4) show ?thesis by simp
  next
    assume "(\<forall>j. current hs' < j \<and> j < len (items hs') \<longrightarrow> \<not> HasPrefix (items hs' ! nat j) (prefix hs'))
            \<and> hs_next hs' = Inr (False, hs')"
    with k o show ?thesis by auto
  qed
qed

text \<open>
  Claim C4, amended. For every history state whose \<open>current\<close> is an index of \<open>items\<close>
  or one of the two positions next to them (\<open>-1 \<le> current \<le> len(items)\<close>):
  \<open>prev()\<close> sets \<open>current\<close> to the largest index below it whose item starts with
  \<open>prefix\<close> and returns true, or returns false and leaves the state unchanged when
  there is none; \<open>next()\<close> does the same with the smallest such index above
  \<open>current\<close>; and after a successful \<open>prev()\<close> from an origin that is an index whose
  item starts with \<open>prefix\<close>, \<open>next()\<close> returns to the origin. The third premise
  holds for every slice Go can hold: its length is below the largest \<open>int\<close>.
\<close>

theorem history_prev_next:
  assumes "- 1 \<le> current hs" "current hs \<le> len (items hs)" "len (items hs) < 2 ^ 63 - 1"
  shows "((\<exists>k. 0 \<le> k \<and> k < current hs \<and> HasPrefix (items hs ! nat k) (prefix hs)
              \<and> (\<forall>j. k < j \<and> j < current hs \<longrightarrow> \<not> HasPrefix (items hs ! nat j) (prefix hs))
              \<and> hs_prev hs = Inr (True, hs\<lparr>current := k\<rparr>))
          \<or> ((\<forall>j. 0 \<le> j \<and> j < current hs \<longrightarrow> \<not> HasPrefix (items hs ! nat j) (prefix hs))
              \<and> hs_prev hs = Inr (False, hs)))
       \<and> ((\<exists>k. current hs < k \<and> k < len (items hs) \<and> HasPrefix (items hs ! nat k) (prefix hs)
              \<and> (\<forall>j. current hs < j \<and> j < k \<longrightarrow> \<not> HasPrefix (items hs ! nat j) (prefix hs))
              \<and> hs_next hs = Inr (True, hs\<lparr>current := k\<rparr>))
          \<or> ((\<forall>j. current hs < j \<and> j < len (items hs)
                  \<longrightarrow> \<not> HasPrefix (items hs ! nat j) (prefix hs))
              \<and> hs_next hs = Inr (False, hs)))
       \<and> (\<forall>hs'. hs_prev hs = Inr (True, hs') \<and> current hs < len (items hs)
                  \<and> HasPrefix (items hs ! nat (current hs)) (prefix hs)
              \<longrightarrow> hs_next hs' = Inr (True, hs))"
proof (intro conjI allI impI)
  show "(\<exists>k. 0 \<le> k \<and> k < current hs \<and> HasPrefix (items hs ! nat k) (prefix hs)
              \<and> (\<forall>j. k < j \<and> j < current hs \<longrightarrow> \<not> HasPrefix (items hs ! nat j) (prefix hs))
              \<and> hs_prev hs = Inr (True, hs\<lparr>current := k\<rparr>))
          \<or> ((\<forall>j. 0 \<le> j \<and> j < current hs \<longrightarrow> \<not> HasPrefix (items hs ! nat j) (prefix hs))
              \<and> hs_prev hs = Inr (False, hs))"
    by (rule hs_prev_result [OF assms])
  show "(\<exists>k. current hs < k \<and> k < len (items hs) \<and> HasPrefix (items hs ! nat k) (prefix hs)
              \<and> (\<forall>j. current hs < j \<and> j < k \<longrightarrow> \<not> HasPrefix (items hs ! nat j) (prefix hs))
              \<and> hs_next hs = Inr (True, hs\<lparr>current := k\<rparr>))
          \<or> ((\<forall>j. current hs < j \<and> j < len (items hs)
                  \<longrightarrow> \<not> HasPrefix (items hs ! nat j) (prefix hs))
              \<and> hs_next hs = Inr (False, hs))"
    by (rule hs_next_result [OF assms])
next
  fix hs'
  assume "hs_prev hs = Inr (True, hs') \<and> current hs < len (items hs)
            \<and> HasPrefix (items hs ! nat (current hs)) (prefix hs)"
  then show "hs_next hs' = Inr (True, hs)"
    using hs_prev_next_origin [OF assms] by blast
qed

text \<open>
  The walk from index 2 of the example history: \<open>prev()\<close> finds \<open>gcc main.c\<close> at
  index 1, and \<open>next()\<close> from there is back at index 2.
\<close>

theorem history_prev_next_witness:
  "hs_prev (h5\<lparr>current := 2\<rparr>) = Inr (True, h5\<lparr>current := 1\<rparr>)
   \<and> hs_next (h5\<lparr>current := 1\<rparr>) = Inr (True, h5\<lparr>current := 2\<rparr>)"
  using history_prev_next [of "h5\<lparr>current := 2\<rparr>"]
  by (simp add: h5_def hs_prev_def hs_next_def sub64_def add64_def wrap64_def
      prev_loop.simps next_loop.simps len_def HasPrefix_def)

text \<open>
  Claim C4 as stated fails twice. With \<open>current\<close> beyond \<open>len(items)\<close> the first
  \<open>hs.items[i]\<close> of \<open>prev()\<close> panics, and so does that of \<open>next()\<close> with
  \<open>current\<close> below \<open>-1\<close>. And in scenario S5 the walk starts from
  \<open>current = len(items) = 3\<close>: \<open>prev()\<close> succeeds and selects index 2, but the
  following \<open>next()\<close> finds no index above 2, returns false and leaves \<open>current\<close> at 2.
\<close>

theorem history_prev_next_counterexample:
  "hs_prev (h5\<lparr>current := 4\<rparr>) = Inl IndexOutOfRange
   \<and> hs_next (h5\<lparr>current := - 2\<rparr>) = Inl IndexOutOfRange
   \<and> current h5 = 3
   \<and> hs_prev h5 = Inr (True, h5\<lparr>current := 2\<rparr>)
   \<and> hs_next (h5\<lparr>current := 2\<rparr>) = Inr (False, h5\<lparr>current := 2\<rparr>)"
  by (simp add: h5_def hs_prev_def hs_next_def sub64_def add64_def wrap64_def
      prev_loop.simps next_loop.simps len_def HasPrefix_def)


section \<open>ReadLine, the history and the restore error\<close>

text \<open>The definitions an example run of \<open>ReadLine\<close> unfolds.\<close>

lemmas run_defs = ReadLine_def startReadLine_def SetupTerminal_def CleanupTerminal_def
  finishReadLine_def refresh_def pushTip_def good_tty_def failing_restore_def new_editor_def
  cooked_def spec_surroundings_def spec_builtins_def returnLine_def returnEOF_def
  keyBindings_def keyBindings_table_def returned_def hs_append_def LineRead_Err_def Errorf_def
  len_def add64_def wrap64_def Let_def

text \<open>
  What the loop leaves alone: the terminal's answer to the restore, and, when no
  builtin changes them, the items of the history.
\<close>

lemma refresh_keeps:
  "refresh X t ed = (e, t2, ed2) \<Longrightarrow>
     applyRestore t2 = applyRestore t \<and> keyReads t2 = keyReads t \<and> history ed2 = history ed"
  by (auto simp: refresh_def Let_def split: list.splits if_splits)

lemma readLoop_keeps_applyRestore:
  "readLoop X p rp n pending t ed = Some (Inr (lr, t', ed'))
     \<Longrightarrow> applyRestore t' = applyRestore t"
proof (induction n arbitrary: pending t ed)
  case 0
  then show ?case by simp
next
  case (Suc n)
  show ?case
  proof (cases pending)
    case None
    obtain e t2 ed2 where r: "refresh X t (ed\<lparr>prompt := p, rprompt := rp\<rparr>) = (e, t2, ed2)"
      by (cases "refresh X t (ed\<lparr>prompt := p, rprompt := rp\<rparr>)") auto
    from refresh_keeps [OF r] have k: "applyRestore t2 = applyRestore t"
      by simp
    from Suc.prems None r k show ?thesis
      by (auto simp: Let_def split: option.splits list.splits sum.splits dest!: Suc.IH)
  next
    case (Some k)
    from Suc.prems Some show ?thesis
      by (auto simp: Let_def split: option.splits prod.splits leAction.splits dest!: Suc.IH)
  qed
qed

lemma readLoop_keeps_history:
  assumes pres: "\<forall>name f e k. leBuiltins X name = Some f
                   \<longrightarrow> items (history (snd (f e k))) = items (history e)"
  shows "readLoop X p rp n pending t ed = Some (Inr (lr, t', ed'))
         \<Longrightarrow> items (history ed') = items (history ed)"
proof (induction n arbitrary: pending t ed)
  case 0
  then show ?case by simp
next
  case (Suc n)
  show ?case
  proof (cases pending)
    case None
    obtain e t2 ed2 where r: "refresh X t (ed\<lparr>prompt := p, rprompt := rp\<rparr>) = (e, t2, ed2)"
      by (cases "refresh X t (ed\<lparr>prompt := p, rprompt := rp\<rparr>)") auto
    from refresh_keeps [OF r] have k: "history ed2 = history ed"
      by simp_all
    from Suc.prems None r k show ?thesis
      by (auto simp: pushTip_def Let_def split: option.splits list.splits sum.splits
          dest!: Suc.IH)
  next
    case (Some k)
    have step: "\<And>f r e'. leBuiltins X name = Some f \<Longrightarrow> f ed k = (r, e')
                  \<Longrightarrow> items (history e') = items (history ed)" for name
      using pres by (metis snd_conv)
    from Suc.prems Some show ?thesis
      by (auto simp: pushTip_def Let_def split: option.splits prod.splits leAction.splits
          dest!: Suc.IH dest: step)
  qed
qed

lemma startReadLine_keeps_history: "history (snd (startReadLine t ed)) = history ed"
  by (simp add: startReadLine_def SetupTerminal_def Let_def
      split: sum.splits option.splits prod.splits)

lemma finishReadLine_result:
  "finishReadLine X t lr ed = (lr', t', ed') \<Longrightarrow>
     lr' = (case applyRestore t of
              Some e \<Rightarrow> LineRead_Err (Errorf ''can't restore terminal attribute: '' e)
            | None \<Rightarrow> lr)
     \<and> items (history ed') = (if \<not> EOF lr \<and> Err lr = None
                              then items (history ed) @ [Line lr] else items (history ed))"
proof -
  assume a: "finishReadLine X t lr ed = (lr', t', ed')"
  define ed1 where "ed1 = (if EOF lr = False \<and> Err lr = None
                 then ed\<lparr>history := hs_append (history ed) (Line lr)\<rparr> else ed)"
  define ed2 where "ed2 = ed1\<lparr>tips := [], mode := modeInsert, completion := None,
                    dot := len (line ed1), rprompt := []\<rparr>"
  obtain e t3 ed3 where r: "refresh X t ed2 = (e, t3, ed3)"
    by (cases "refresh X t ed2") auto
  from refresh_keeps [OF r] have k: "applyRestore t3 = applyRestore t" "history ed3 = history ed2"
    by simp_all
  have h: "items (history ed2) = (if \<not> EOF lr \<and> Err lr = None
                              then items (history ed) @ [Line lr] else items (history ed))"
    by (simp add: ed2_def ed1_def hs_append_def)
  from a r k h show ?thesis
    unfolding finishReadLine_def Let_def ed1_def [symmetric] ed2_def [symmetric]
    by (auto simp: CleanupTerminal_def split: option.splits)
qed

lemma defaultInsert_keeps_history: "history (snd (defaultInsert e k)) = history e"
  by (cases "(e, k)" rule: defaultInsert.cases) auto

lemma spec_builtins_keep_history:
  "\<forall>name f e k. leBuiltins spec_surroundings name = Some f
     \<longrightarrow> items (history (snd (f e k))) = items (history e)"
  by (auto simp: spec_surroundings_def spec_builtins_def returnLine_def returnEOF_def
      defaultInsert_keeps_history split: if_splits)

lemma LineRead_Err_fields:
  "Line (LineRead_Err e) = [] \<and> \<not> EOF (LineRead_Err e) \<and> Err (LineRead_Err e) = Some e"
  by (simp add: LineRead_Err_def)

text \<open>
  Claim C8. When the start has succeeded and the loop has produced a result, whatever
  it is (a line, EOF or an error), and restoring the terminal fails with \<open>e\<close>, then
  \<open>ReadLine\<close> returns a \<open>LineRead\<close> that carries the restore error and nothing
  else: \<open>Err\<close> is the error with the message \<open>can't restore terminal attribute: \<close>
  followed by the message of \<open>e\<close>, \<open>Line\<close> is empty and \<open>EOF\<close> is false.
\<close>

theorem restore_error_overrides_result:
  assumes start: "startReadLine t ed = (None, ed1)"
    and loop: "readLoop X p rp n None t
                 (ed1\<lparr>line := [], mode := modeInsert, tips := [], completion := None, dot := 0\<rparr>)
               = Some (Inr (lr0, t3, ed3))"
    and restore: "applyRestore t = Some e"
  shows "\<exists>lr t' ed'. ReadLine X p rp n t ed = Some (Inr (lr, t', ed'))
           \<and> Err lr = Some (Error (''can't restore terminal attribute: '' @ Error_msg e))
           \<and> Line lr = [] \<and> \<not> EOF lr"
proof -
  obtain lr t' ed' where f: "finishReadLine X t3 lr0 ed3 = (lr, t', ed')"
    by (cases "finishReadLine X t3 lr0 ed3") auto
  from readLoop_keeps_applyRestore [OF loop] restore have "applyRestore t3 = Some e"
    by simp
  with finishReadLine_result [OF f]
  have "lr = LineRead_Err (Errorf ''can't restore terminal attribute: '' e)"
    by simp
  then have "Err lr = Some (Error (''can't restore terminal attribute: '' @ Error_msg e))
             \<and> Line lr = [] \<and> \<not> EOF lr"
    by (simp add: LineRead_Err_def Errorf_def)
  moreover from start loop f have "ReadLine X p rp n t ed = Some (Inr (lr, t', ed'))"
    by (simp add: ReadLine_def)
  ultimately show ?thesis
    by blast
qed

text \<open>
  Ctrl-D on the empty line, which ends the loop with EOF, and a restore that fails with
  \<open>EIO\<close>: the result has the restore error, no line and no EOF.
\<close>

theorem restore_error_overrides_result_witness:
  "\<exists>lr t' ed'. ReadLine spec_surroundings ''> '' [] 10
                 (failing_restore [Key (Rune CHR ''D'') {Ctrl}]) new_editor
               = Some (Inr (lr, t', ed'))
             \<and> Err lr = Some (Error ''can't restore terminal attribute: EIO'')
             \<and> Line lr = [] \<and> \<not> EOF lr"
proof -
  let ?t = "failing_restore [Key (Rune CHR ''D'') {Ctrl}]"
  have start: "startReadLine ?t new_editor = (None, snd (startReadLine ?t new_editor))"
    by (simp add: run_defs)
  have "\<exists>t3 ed3. readLoop spec_surroundings ''> '' [] 10 None ?t
          (snd (startReadLine ?t new_editor)
             \<lparr>line := [], mode := modeInsert, tips := [], completion := None, dot := 0\<rparr>)
        = Some (Inr (\<lparr>Line = [], EOF = True, Err = None\<rparr>, t3, ed3))"
    by (simp add: run_defs eval_nat_numeral)
  then obtain t3 ed3 where loop:
    "readLoop spec_surroundings ''> '' [] 10 None ?t
          (snd (startReadLine ?t new_editor)
             \<lparr>line := [], mode := modeInsert, tips := [], completion := None, dot := 0\<rparr>)
        = Some (Inr (\<lparr>Line = [], EOF = True, Err = None\<rparr>, t3, ed3))"
    by blast
  have restore: "applyRestore ?t = Some (Error ''EIO'')"
    by (simp add: failing_restore_def)
  from restore_error_overrides_result [OF start loop restore] show ?thesis
    by simp
qed

text \<open>
  Claim C2, amended. For every \<open>ReadLine\<close> call that returns: if it fails at its
  start, the result is that error and the history is unchanged. Otherwise the loop has
  ended with a result, and \<open>finishReadLine\<close> appends the line of that result exactly
  once, to the history as the loop left it, if the loop ended with a successful Line
  (not EOF, no error), and appends nothing if it ended with EOF or an error. The history
  as the loop left it has the items it had at the call provided no builtin changes
  them. If restoring the terminal succeeds, the result is the loop's result, so that
  the line is appended exactly when the result is a successful Line. If the restore
  fails with \<open>e\<close>, the result is the restore error (\<open>Line\<close> empty, \<open>EOF\<close> false,
  \<open>Err\<close> the error made from \<open>e\<close>), also when the line has been appended.
\<close>

theorem ReadLine_appends_history:
  assumes ret: "ReadLine X p rp n t ed = Some (Inr (lr, t', ed'))"
  shows "(\<forall>err. fst (startReadLine t ed) = Some err
            \<longrightarrow> Err lr = Some err \<and> Line lr = [] \<and> \<not> EOF lr
              \<and> items (history ed') = items (history ed))
       \<and> (fst (startReadLine t ed) = None
            \<longrightarrow> (\<exists>lr0 t3 ed3.
                    readLoop X p rp n None t
                      (snd (startReadLine t ed)\<lparr>line := [], mode := modeInsert, tips := [],
                                                completion := None, dot := 0\<rparr>)
                      = Some (Inr (lr0, t3, ed3))
                    \<and> items (history ed')
                      = (if \<not> EOF lr0 \<and> Err lr0 = None then items (history ed3) @ [Line lr0]
                         else items (history ed3))
                    \<and> ((\<forall>name f e k. leBuiltins X name = Some f
                            \<longrightarrow> items (history (snd (f e k))) = items (history e))
                        \<longrightarrow> items (history ed3) = items (history ed))
                    \<and> (applyRestore t = None \<longrightarrow> lr = lr0)
                    \<and> (\<forall>e. applyRestore t = Some e
                          \<longrightarrow> Err lr = Some (Error (''can't restore terminal attribute: ''
                                                      @ Error_msg e))
                            \<and> Line lr = [] \<and> \<not> EOF lr)))"
proof -
  obtain e0 ed1 where start: "startReadLine t ed = (e0, ed1)"
    by (cases "startReadLine t ed") auto
  have h1: "history ed1 = history ed"
    using startReadLine_keeps_history [of t ed] start by simp
  show ?thesis
  proof (cases e0)
    case (Some err)
    with start ret have "lr = LineRead_Err err" "ed' = ed1"
      by (simp_all add: ReadLine_def)
    with start Some h1 show ?thesis
      by (simp add: LineRead_Err_def)
  next
    case None
    with start ret obtain lr0 t3 ed3 where
      loop: "readLoop X p rp n None t
               (ed1\<lparr>line := [], mode := modeInsert, tips := [], completion := None, dot := 0\<rparr>)
             = Some (Inr (lr0, t3, ed3))"
      and fin: "finishReadLine X t3 lr0 ed3 = (lr, t', ed')"
      by (auto simp: ReadLine_def split: option.splits sum.splits prod.splits)
    have kept: "(\<forall>name f e k. leBuiltins X name = Some f
                   \<longrightarrow> items (history (snd (f e k))) = items (history e))
                \<longrightarrow> items (history ed3) = items (history ed)"
    proof
      assume pres: "\<forall>name f e k. leBuiltins X name = Some f
                      \<longrightarrow> items (history (snd (f e k))) = items (history e)"
      from readLoop_keeps_history [OF pres loop] h1 show "items (history ed3) = items (history ed)"
        by simp
    qed
    from readLoop_keeps_applyRestore [OF loop] have a3: "applyRestore t3 = applyRestore t" .
    from finishReadLine_result [OF fin] a3
    have res: "lr = (case applyRestore t of
                 Some e \<Rightarrow> LineRead_Err (Errorf ''can't restore terminal attribute: '' e)
               | None \<Rightarrow> lr0)"
      and hist: "items (history ed') = (if \<not> EOF lr0 \<and> Err lr0 = None
                               then items (history ed3) @ [Line lr0] else items (history ed3))"
      by simp_all
    from res have ok: "applyRestore t = None \<longrightarrow> lr = lr0"
      by simp
    from res have bad: "\<forall>e. applyRestore t = Some e
                          \<longrightarrow> Err lr = Some (Error (''can't restore terminal attribute: ''
                                                      @ Error_msg e))
                            \<and> Line lr = [] \<and> \<not> EOF lr"
      by (simp add: LineRead_Err_def Errorf_def)
    from start None have s: "fst (startReadLine t ed) = None" "snd (startReadLine t ed) = ed1"
      by simp_all
    have "\<exists>lr0 t3 ed3.
            readLoop X p rp n None t
              (ed1\<lparr>line := [], mode := modeInsert, tips := [], completion := None, dot := 0\<rparr>)
              = Some (Inr (lr0, t3, ed3))
            \<and> items (history ed')
              = (if \<not> EOF lr0 \<and> Err lr0 = None then items (history ed3) @ [Line lr0]
                 else items (history ed3))
            \<and> ((\<forall>name f e k. leBuiltins X name = Some f
                    \<longrightarrow> items (history (snd (f e k))) = items (history e))
                \<longrightarrow> items (history ed3) = items (history ed))
            \<and> (applyRestore t = None \<longrightarrow> lr = lr0)
            \<and> (\<forall>e. applyRestore t = Some e
                  \<longrightarrow> Err lr = Some (Error (''can't restore terminal attribute: ''
                                              @ Error_msg e))
                    \<and> Line lr = [] \<and> \<not> EOF lr)"
    proof (rule exI [of _ lr0], rule exI [of _ t3], rule exI [of _ ed3], intro conjI)
      show "readLoop X p rp n None t
              (ed1\<lparr>line := [], mode := modeInsert, tips := [], completion := None, dot := 0\<rparr>)
              = Some (Inr (lr0, t3, ed3))"
        by (rule loop)
      show "items (history ed')
              = (if \<not> EOF lr0 \<and> Err lr0 = None then items (history ed3) @ [Line lr0]
                 else items (history ed3))"
        by (rule hist)
      show "(\<forall>name f e k. leBuiltins X name = Some f
                    \<longrightarrow> items (history (snd (f e k))) = items (history e))
                \<longrightarrow> items (history ed3) = items (history ed)"
        by (rule kept)
      show "applyRestore t = None \<longrightarrow> lr = lr0"
        by (rule ok)
      show "\<forall>e. applyRestore t = Some e
                  \<longrightarrow> Err lr = Some (Error (''can't restore terminal attribute: ''
                                              @ Error_msg e))
                    \<and> Line lr = [] \<and> \<not> EOF lr"
        by (rule bad)
    qed
    then show ?thesis
      unfolding s by simp
  qed
qed

text \<open>
  Scenario S1 with \<open>hi\<close>: the result is the line and the history gains it. Ctrl-D with
  a failing restore: the result is the restore error and the history stays as it was.
  And a terminal whose attributes cannot be read: the result is that error.
\<close>

theorem ReadLine_appends_history_witness:
  "returned (ReadLine spec_surroundings ''> '' [] 10
      (good_tty [Key (Rune CHR ''h'') {}, Key (Rune CHR ''i'') {}, Key Enter {}]) new_editor)
     = Some (\<lparr>Line = ''hi'', EOF = False, Err = None\<rparr>, items (history new_editor) @ [''hi''])
   \<and> (\<exists>lr t' ed'. ReadLine spec_surroundings ''> '' [] 10
                     (failing_restore [Key (Rune CHR ''D'') {Ctrl}]) new_editor
                   = Some (Inr (lr, t', ed'))
                 \<and> Err lr = Some (Error ''can't restore terminal attribute: EIO'')
                 \<and> Line lr = [] \<and> \<not> EOF lr
                 \<and> items (history ed') = items (history new_editor))
   \<and> (\<exists>lr t' ed'. ReadLine spec_surroundings ''> '' [] 10
                     ((good_tty [])\<lparr>termiosFromFd := Inl (Error ''ENOTTY'')\<rparr>) new_editor
                   = Some (Inr (lr, t', ed'))
                 \<and> Err lr = Some (Error ''can't get terminal attribute: ENOTTY'')
                 \<and> items (history ed') = items (history new_editor))"
proof -
  let ?good = "good_tty [Key (Rune CHR ''h'') {}, Key (Rune CHR ''i'') {}, Key Enter {}]"
  let ?bad = "failing_restore [Key (Rune CHR ''D'') {Ctrl}]"
  let ?notty = "(good_tty [])\<lparr>termiosFromFd := Inl (Error ''ENOTTY'')\<rparr>"
  let ?pres = "\<forall>name f e k. leBuiltins spec_surroundings name = Some f
                 \<longrightarrow> items (history (snd (f e k))) = items (history e)"
  have "\<exists>t' ed'. ReadLine spec_surroundings ''> '' [] 10 ?good new_editor
          = Some (Inr (\<lparr>Line = ''hi'', EOF = False, Err = None\<rparr>, t', ed'))"
    by (simp add: run_defs eval_nat_numeral)
  then obtain t' ed' where good:
    "ReadLine spec_surroundings ''> '' [] 10 ?good new_editor
       = Some (Inr (\<lparr>Line = ''hi'', EOF = False, Err = None\<rparr>, t', ed'))"
    by blast
  have g: "fst (startReadLine ?good new_editor) = None" "applyRestore ?good = None"
    by (simp_all add: run_defs)
  from ReadLine_appends_history [OF good, THEN conjunct2, THEN mp, OF g(1)]
  obtain lr0 and ed3 :: Editor where
    "items (history ed')
       = (if \<not> EOF lr0 \<and> Err lr0 = None then items (history ed3) @ [Line lr0]
          else items (history ed3))"
    "?pres \<longrightarrow> items (history ed3) = items (history new_editor)"
    "applyRestore ?good = None \<longrightarrow> \<lparr>Line = ''hi'', EOF = False, Err = None\<rparr> = lr0"
    by (elim exE conjE) (rule that, assumption+)
  with g(2) spec_builtins_keep_history
  have "items (history ed') = items (history new_editor) @ [''hi'']"
    by auto
  with good have first:
    "returned (ReadLine spec_surroundings ''> '' [] 10 ?good new_editor)
       = Some (\<lparr>Line = ''hi'', EOF = False, Err = None\<rparr>, items (history new_editor) @ [''hi''])"
    by (simp add: returned_def)
  have "\<exists>lr t'' ed''. ReadLine spec_surroundings ''> '' [] 10 ?bad new_editor
          = Some (Inr (lr, t'', ed''))"
    by (simp add: run_defs eval_nat_numeral)
  then obtain lr t'' ed'' where bad:
    "ReadLine spec_surroundings ''> '' [] 10 ?bad new_editor = Some (Inr (lr, t'', ed''))"
    by blast
  have b: "applyRestore ?bad = Some (Error ''EIO'')" "fst (startReadLine ?bad new_editor) = None"
    by (simp_all add: run_defs)
  from ReadLine_appends_history [OF bad, THEN conjunct2, THEN mp, OF b(2)]
  obtain lq tq eq where q:
    "readLoop spec_surroundings ''> '' [] 10 None ?bad
       (snd (startReadLine ?bad new_editor)
          \<lparr>line := [], mode := modeInsert, tips := [], completion := None, dot := 0\<rparr>)
     = Some (Inr (lq, tq, eq))"
    "items (history ed'')
       = (if \<not> EOF lq \<and> Err lq = None then items (history eq) @ [Line lq]
          else items (history eq))"
    "?pres \<longrightarrow> items (history eq) = items (history new_editor)"
    "\<forall>e. applyRestore ?bad = Some e
       \<longrightarrow> Err lr = Some (Error (''can't restore terminal attribute: '' @ Error_msg e))
         \<and> Line lr = [] \<and> \<not> EOF lr"
    by (elim exE conjE) (rule that, assumption+)
  from q(1) have "EOF lq"
    by (auto simp add: run_defs eval_nat_numeral)
  with q(2,3) spec_builtins_keep_history
  have "items (history ed'') = items (history new_editor)"
    by simp
  moreover from q(4) b(1)
  have "Err lr = Some (Error ''can't restore terminal attribute: EIO'') \<and> Line lr = [] \<and> \<not> EOF lr"
    by simp
  ultimately have second:
    "\<exists>lr t' ed'. ReadLine spec_surroundings ''> '' [] 10 ?bad new_editor
                   = Some (Inr (lr, t', ed'))
                 \<and> Err lr = Some (Error ''can't restore terminal attribute: EIO'')
                 \<and> Line lr = [] \<and> \<not> EOF lr
                 \<and> items (history ed') = items (history new_editor)"
    using bad by blast
  have "\<exists>lr t3 ed3. ReadLine spec_surroundings ''> '' [] 10 ?notty new_editor
          = Some (Inr (lr, t3, ed3))"
    by (simp add: run_defs)
  then obtain lr3 t3' ed3' where notty:
    "ReadLine spec_surroundings ''> '' [] 10 ?notty new_editor = Some (Inr (lr3, t3', ed3'))"
    by blast
  have "fst (startReadLine ?notty new_editor) = Some (Error ''can't get terminal attribute: ENOTTY'')"
    by (simp add: run_defs)
  from ReadLine_appends_history [OF notty, THEN conjunct1, THEN spec, THEN mp, OF this]
  have "Err lr3 = Some (Error ''can't get terminal attribute: ENOTTY'')
        \<and> items (history ed3') = items (history new_editor)"
    by simp
  with notty have third:
    "\<exists>lr t' ed'. ReadLine spec_surroundings ''> '' [] 10 ?notty new_editor
                   = Some (Inr (lr, t', ed'))
                 \<and> Err lr = Some (Error ''can't get terminal attribute: ENOTTY'')
                 \<and> items (history ed') = items (history new_editor)"
    by blast
  from first second third show ?thesis
    by blast
qed

text \<open>
  Claim C2 as stated fails when the restore fails after a line was entered: \<open>h\<close> and
  Enter give a history that has gained \<open>h\<close>, and a result that is an error.
\<close>

theorem ReadLine_appends_history_counterexample:
  "returned (ReadLine spec_surroundings ''> '' [] 10
      (failing_restore [Key (Rune CHR ''h'') {}, Key Enter {}]) new_editor)
     = Some (\<lparr>Line = [], EOF = False,
              Err = Some (Error ''can't restore terminal attribute: EIO'')\<rparr>, [''h''])
   \<and> items (history new_editor) = []"
  by (simp add: run_defs eval_nat_numeral)

text \<open>
  Claim C5 fails on Enter pressed on the empty line: \<open>ReadLine\<close> returns a
  \<open>LineRead\<close> with no member non-zero (and appends the empty line to the history).
\<close>

theorem ReadLine_empty_line_all_zero:
  "returned (ReadLine spec_surroundings ''> '' [] 10 (good_tty [Key Enter {}]) new_editor)
     = Some (\<lparr>Line = [], EOF = False, Err = None\<rparr>, [[]])"
  by (simp add: run_defs eval_nat_numeral)

section \<open>The start of ReadLine\<close>





section \<open>The check of the key bindings at startup\<close>

text \<open>
  \<open>init\<close> panics exactly when the registry lacks a name the table binds. Whether it
  does depends on the registry, which is not among the sources.
\<close>

lemma init_ok_iff:
  "init builtins = Inr ()
   \<longleftrightarrow> (\<forall>(m, kb) \<in> set keyBindings_table. \<forall>(k, name) \<in> set kb. builtins name \<noteq> None)"
  by (auto simp: init_def list_all_iff)


section \<open>The mode line with scrollbar\<close>

text \<open>
  Writing into a buffer that clips leaves a buffer that clips, of the same width, when
  no rune has a negative width.
\<close>

lemma newBuffer_clipping: "0 \<le> w \<Longrightarrow> clipping (newBuffer w) \<and> width (newBuffer w) = w"
  by (simp add: clipping_def newBuffer_def lineWidth_def)

lemma write_rune_clipping:
  assumes "clipping b" "0 \<le> wcwidth S r"
  shows "clipping (write_rune S b r st) \<and> width (write_rune S b r st) = width b"
  using assms
  by (auto simp: clipping_def write_rune_def appendCell_def lineWidth_def Let_def
      split: list.splits)

lemma writes_clipping:
  assumes "\<forall>r. 0 \<le> wcwidth S r"
  shows "clipping b \<Longrightarrow> clipping (writes S b s st) \<and> width (writes S b s st) = width b"
proof (induction s arbitrary: b)
  case Nil
  then show ?case by (simp add: writes_def)
next
  case (Cons r s)
  from write_rune_clipping [OF Cons.prems, of S r st] assms
  have w: "clipping (write_rune S b r st)" "width (write_rune S b r st) = width b"
    by simp_all
  from Cons.IH [OF w(1)] w(2) show ?case
    by (simp add: writes_def)
qed

lemma modeLineRenderer_render_clipping:
  assumes "\<forall>r. 0 \<le> wcwidth S r" "clipping b"
  shows "clipping (modeLineRenderer_render S ml b)
         \<and> width (modeLineRenderer_render S ml b) = width b"
proof -
  let ?b1 = "writes S b (title ml) (styleForMode S)"
  let ?b2 = "writes S ?b1 '' '' []"
  let ?b3 = "writes S ?b2 (filter_text ml) (styleForFilter S)"
  from writes_clipping [OF assms] have 1: "clipping ?b1" "width ?b1 = width b"
    by simp_all
  from writes_clipping [OF assms(1) 1(1)] 1(2) have 2: "clipping ?b2" "width ?b2 = width b"
    by simp_all
  from writes_clipping [OF assms(1) 2(1)] 2(2) have 3: "clipping ?b3" "width ?b3 = width b"
    by simp_all
  from 3 show ?thesis
    by (simp add: modeLineRenderer_render_def Let_def clipping_def)
qed

text \<open>
  Claim C7, amended. For every mode line with scrollbar rendered into a new buffer of
  width \<open>w\<close>, the trailing horizontal scrollbar is drawn if and only if at least 5
  columns remain after the mode line's content on the last row: the scrollbar gets the
  remaining columns less 2, and is drawn when that is at least 3.
\<close>

theorem modeLine_scrollbar_from_five_columns:
  assumes "0 \<le> w" "w < 2 ^ 63" "\<forall>r. 0 \<le> wcwidth S r"
  shows "render S ml w =
           (let b1 = modeLineRenderer_render S ml (newBuffer w);
                remaining = w - lineWidth (last (cells b1))
            in if 5 \<le> remaining
               then Inr (writeHorizontalScrollbar S (writes S b1 '' '' [])
                           (sb_n ml) (sb_low ml) (sb_high ml) (remaining - 2))
               else Inr b1)"
proof -
  let ?b1 = "modeLineRenderer_render S ml (newBuffer w)"
  from newBuffer_clipping [OF assms(1)] modeLineRenderer_render_clipping [OF assms(3), of "newBuffer w" ml]
  have c: "clipping ?b1" and wd: "width ?b1 = w"
    by simp_all
  from c wd have rows: "cells ?b1 \<noteq> []"
    and lw: "0 \<le> lineWidth (last (cells ?b1))" "lineWidth (last (cells ?b1)) \<le> w"
    by (simp_all add: clipping_def)
  from lw assms have "is_int64 (w - lineWidth (last (cells ?b1)))"
    "is_int64 (w - lineWidth (last (cells ?b1)) - 2)"
    by (simp_all add: is_int64_def)
  then have sw: "sub64 (sub64 (width ?b1) (lineWidth (last (cells ?b1)))) 2
                 = w - lineWidth (last (cells ?b1)) - 2"
    by (simp add: sub64_def wrap64_id wd)
  have "(3 \<le> w - lineWidth (last (cells ?b1)) - 2) = (5 \<le> w - lineWidth (last (cells ?b1)))"
    by auto
  with rows sw show ?thesis
    by (simp add: render_def modeLineWithScrollBarRenderer_render_def Let_def)
qed

text \<open>The definitions an example rendering unfolds.\<close>

lemmas buf_defs = render_def modeLineWithScrollBarRenderer_render_def modeLineRenderer_render_def
  writes_def write_rune_def appendCell_def newBuffer_def cursor_def lineWidth_def
  plain_screen_def comp_line_def sub64_def wrap64_def len_def Let_def

text \<open>
  The mode line \<open>COMP ab\<close> takes 7 columns. At width 12, where 5 remain, a space and a
  scrollbar of 3 columns follow it; at width 11, where 4 remain, nothing does.
\<close>

theorem modeLine_scrollbar_from_five_columns_witness: "map_sum id (\<lambda>b. map (map cell_rune) (cells b)) (render plain_screen comp_line 12)
     = Inr [''COMP ab ---'']
   \<and> map_sum id (\<lambda>b. map (map cell_rune) (cells b)) (render plain_screen comp_line 11)
     = Inr [''COMP ab'']"
proof -
  have h: "\<forall>r. 0 \<le> wcwidth plain_screen r"
    by (simp add: plain_screen_def)
  have "(0::int) \<le> 12" "(12::int) < 2 ^ 63" "(0::int) \<le> 11" "(11::int) < 2 ^ 63"
    by simp_all
  from modeLine_scrollbar_from_five_columns [OF this(1,2) h, of comp_line]
    modeLine_scrollbar_from_five_columns [OF this(3,4) h, of comp_line]
  show ?thesis
    by (simp add: buf_defs eval_nat_numeral)
qed

text \<open>
  Claim C7 as stated fails at width 10: 3 columns remain after the mode line's content,
  and no scrollbar is drawn.
\<close>

theorem modeLine_scrollbar_from_five_columns_counterexample: "width (modeLineRenderer_render plain_screen comp_line (newBuffer 10))
     - lineWidth (last (cells (modeLineRenderer_render plain_screen comp_line (newBuffer 10)))) = 3
   \<and> render plain_screen comp_line 10
     = Inr (modeLineRenderer_render plain_screen comp_line (newBuffer 10))
   \<and> map (map cell_rune) (cells (modeLineRenderer_render plain_screen comp_line (newBuffer 10)))
     = [''COMP ab'']"
  by (simp add: buf_defs)

end
